theory Spec2Isabelle
  imports Main "HOL-Library.Stream" "HOL-Library.Word"
begin

unbundle bit_operations_syntax

section \<open>The random source and Python's failing primitives\<close>

text \<open>
  The module draws from Python's process-wide \<^verbatim>\<open>random\<close>. The model makes the source
  explicit: an infinite stream of raw draws, threaded through every call. A draw from a
  range maps the raw number into the range by remainder, so every value of the range is
  reached by some stream and no value outside it is.

  Strings are \<^typ>\<open>string\<close>: lists of 8-bit characters, read as the code points 0 to 255.
  A Python string with a code point above 255 has no counterpart in the model.

  NameError is what the evaluation of a name raises that the module never binds.
\<close>

datatype error = IndexError | ValueError | NameError

type_synonym rng = "nat stream"

type_synonym 'a rand = "rng \<Rightarrow> error + ('a \<times> rng)"

definition return_rand :: "'a \<Rightarrow> 'a rand" where
  "return_rand x g = Inr (x, g)"

definition bind_rand :: "'a rand \<Rightarrow> ('a \<Rightarrow> 'b rand) \<Rightarrow> 'b rand" where
  "bind_rand m f g = (case m g of Inl e \<Rightarrow> Inl e | Inr (x, g') \<Rightarrow> f x g')"

text \<open>\<^verbatim>\<open>random.randint(a, b)\<close>: an integer of the inclusive range, ValueError when it is empty.\<close>

definition randint :: "int \<Rightarrow> int \<Rightarrow> int rand" where
  "randint a b g =
     (if b < a then Inl ValueError
      else Inr (a + int (shd g mod nat (b - a + 1)), stl g))"

text \<open>\<^verbatim>\<open>random.randrange(a, b)\<close>: the upper bound is excluded.\<close>

definition randrange :: "int \<Rightarrow> int \<Rightarrow> int rand" where
  "randrange a b g =
     (if b \<le> a then Inl ValueError
      else Inr (a + int (shd g mod nat (b - a)), stl g))"

text \<open>\<^verbatim>\<open>random.choice(xs)\<close>: IndexError on the empty sequence.\<close>

definition choice :: "'a list \<Rightarrow> 'a rand" where
  "choice xs g =
     (if xs = [] then Inl IndexError
      else Inr (xs ! (shd g mod length xs), stl g))"

definition raise :: "error \<Rightarrow> 'a rand" where
  "raise e g = Inl e"

text \<open>
  \<^verbatim>\<open>chr(n)\<close>: the code point \<open>n\<close>, ValueError outside \<^verbatim>\<open>range(0x110000)\<close>. The two callers
  store the code as a character of the model; the codes they pass lie below 256 (lemmas
  \<open>insert_code_in_range\<close> and \<open>flip_code_in_range\<close>), so nothing is lost there.
\<close>

definition chr :: "int \<Rightarrow> error + nat" where
  "chr n = (if 0 \<le> n \<and> n < 0x110000 then Inr (nat n) else Inl ValueError)"

definition ord :: "char \<Rightarrow> int" where
  "ord c = int (of_char c)"

section \<open>Generic mutators\<close>

definition delete_random_character :: "string \<Rightarrow> string rand" where
  "delete_random_character s =
     (if s = [] then return_rand s
      else bind_rand (randint 0 (int (length s) - 1)) (\<lambda>pos.
             return_rand (take (nat pos) s @ drop (nat pos + 1) s)))"

definition insert_random_character :: "string \<Rightarrow> string rand" where
  "insert_random_character s =
     bind_rand (randint 0 (int (length s))) (\<lambda>pos.
     bind_rand (randrange 32 127) (\<lambda>code. \<lambda>g.
       (case chr code of
          Inl e \<Rightarrow> Inl e
        | Inr random_character \<Rightarrow>
            Inr (take (nat pos) s @ [char_of random_character] @ drop (nat pos) s, g))))"

definition flip_random_character :: "string \<Rightarrow> string rand" where
  "flip_random_character s =
     (if s = [] then return_rand s
      else bind_rand (randint 0 (int (length s) - 1)) (\<lambda>pos.
           bind_rand (randint 0 6) (\<lambda>k. \<lambda>g.
             (let c = s ! nat pos;
                  bit = push_bit (nat k) (1::int)
              in case chr (ord c XOR bit) of
                   Inl e \<Rightarrow> Inl e
                 | Inr new_c \<Rightarrow>
                     Inr (take (nat pos) s @ [char_of new_c] @ drop (nat pos + 1) s, g)))))"

section \<open>Python's string predicates\<close>

text \<open>
  Whitespace and case are what \<^verbatim>\<open>str.isspace\<close>, \<^verbatim>\<open>str.isupper\<close>, \<^verbatim>\<open>str.islower\<close>,
  \<^verbatim>\<open>str.upper\<close> and \<^verbatim>\<open>str.lower\<close> make of the code points below 256. The uppercase
  letters are A to Z and the codes 192 to 222 without the multiplication sign 215; the
  lowercase letters are a to z, the two ordinal indicators 170 and 186, the micro sign
  181, and the codes 223 to 255 without the division sign 247.
\<close>

definition is_space :: "char \<Rightarrow> bool" where
  "is_space c = ((of_char c :: nat) \<in> {9, 10, 11, 12, 13, 28, 29, 30, 31, 32, 133, 160})"

definition is_upper_char :: "char \<Rightarrow> bool" where
  "is_upper_char c =
     (let n = (of_char c :: nat)
      in (65 \<le> n \<and> n \<le> 90) \<or> (192 \<le> n \<and> n \<le> 214) \<or> (216 \<le> n \<and> n \<le> 222))"

definition is_lower_char :: "char \<Rightarrow> bool" where
  "is_lower_char c =
     (let n = (of_char c :: nat)
      in (97 \<le> n \<and> n \<le> 122) \<or> n = 170 \<or> n = 181 \<or> n = 186 \<or>
         (223 \<le> n \<and> n \<le> 246) \<or> (248 \<le> n \<and> n \<le> 255))"

text \<open>
  \<^verbatim>\<open>str.lower\<close> stays below 256: an uppercase letter moves up by 32. \<^verbatim>\<open>str.upper\<close> does
  not: the sharp s (223) becomes the two letters SS, the y with diaeresis (255) becomes
  the code point 376 and the micro sign (181) the code point 924; the ordinal indicators
  have no uppercase. So \<open>upper\<close> yields a list of code points, and \<open>codes\<close> reads a string
  of the model as one.
\<close>

definition upper_char :: "char \<Rightarrow> nat list" where
  "upper_char c =
     (let n = (of_char c :: nat)
      in if n = 223 then [83, 83]
         else if n = 255 then [376]
         else if n = 181 then [924]
         else if (97 \<le> n \<and> n \<le> 122) \<or> (224 \<le> n \<and> n \<le> 246) \<or> (248 \<le> n \<and> n \<le> 254)
         then [n - 32]
         else [n])"

definition lower_char :: "char \<Rightarrow> char" where
  "lower_char c = (if is_upper_char c then char_of ((of_char c :: nat) + 32) else c)"

definition codes :: "string \<Rightarrow> nat list" where
  "codes t = map of_char t"

definition upper :: "string \<Rightarrow> nat list" where
  "upper t = concat (map upper_char t)"

definition lower :: "string \<Rightarrow> string" where
  "lower t = map lower_char t"

text \<open>\<^verbatim>\<open>t.isspace()\<close>: at least one character, all of them whitespace.\<close>

definition isspace :: "string \<Rightarrow> bool" where
  "isspace t = (t \<noteq> [] \<and> list_all is_space t)"

text \<open>\<^verbatim>\<open>t.isupper()\<close>: at least one cased character, none of them lowercase.\<close>

definition isupper :: "string \<Rightarrow> bool" where
  "isupper t = (list_ex is_upper_char t \<and> \<not> list_ex is_lower_char t)"

definition islower :: "string \<Rightarrow> bool" where
  "islower t = (list_ex is_lower_char t \<and> \<not> list_ex is_upper_char t)"

definition quote :: char where
  "quote = CHR 0x27"

section \<open>Tokenizer\<close>

text \<open>
  Modelled from the spec: the helpers \<^verbatim>\<open>_tok\<close> and \<^verbatim>\<open>_unt\<close> are called by the SQL-aware
  mutators and defined nowhere in the module. The spec's tokenizer splits a string into
  maximal runs of whitespace and maximal runs of non-whitespace, and keeps a quoted
  literal \<^verbatim>\<open>'...'\<close> as one token even when it contains whitespace; reassembly is the
  concatenation of the token texts. The spec is silent on a quote that is never closed:
  here it starts a word.
\<close>

definition word_char :: "char \<Rightarrow> bool" where
  "word_char c = (\<not> is_space c \<and> c \<noteq> quote)"

function tok :: "string \<Rightarrow> string list" where
  "tok [] = []"
| "tok (c # cs) =
     (if is_space c then
        (c # takeWhile is_space cs) # tok (dropWhile is_space cs)
      else if c = quote \<and> quote \<in> set cs then
        (c # takeWhile (\<lambda>x. x \<noteq> quote) cs @ [quote]) # tok (tl (dropWhile (\<lambda>x. x \<noteq> quote) cs))
      else
        (c # takeWhile word_char cs) # tok (dropWhile word_char cs))"
  by pat_completeness auto
termination
proof (relation "measure length")
  show "wf (measure length)" by simp
next
  fix c :: char and cs :: string
  show "(dropWhile is_space cs, c # cs) \<in> measure length"
    using length_dropWhile_le [of is_space cs] by simp
next
  fix c :: char and cs :: string
  have "length (tl (dropWhile (\<lambda>x. x \<noteq> quote) cs)) \<le> length cs"
    using length_dropWhile_le [of "\<lambda>x. x \<noteq> quote" cs] by simp
  then show "(tl (dropWhile (\<lambda>x. x \<noteq> quote) cs), c # cs) \<in> measure length"
    by simp
next
  fix c :: char and cs :: string
  show "(dropWhile word_char cs, c # cs) \<in> measure length"
    using length_dropWhile_le [of word_char cs] by simp
qed

definition unt :: "string list \<Rightarrow> string" where
  "unt ts = concat ts"

section \<open>SQL-aware mutators\<close>

text \<open>
  The keyword table \<^verbatim>\<open>_SQL_KW\<close> is not defined in the module either. The mutators take
  it as their first argument: a sequence, since the code draws from it with
  \<^verbatim>\<open>random.choice\<close>.
\<close>

definition content_idx :: "string list \<Rightarrow> nat list" where
  "content_idx ts = filter (\<lambda>i. \<not> isspace (ts ! i)) [0..<length ts]"

definition keyword_idx :: "string list \<Rightarrow> string list \<Rightarrow> nat list" where
  "keyword_idx SQL_KW ts =
     filter (\<lambda>i. \<not> isspace (ts ! i) \<and> upper (ts ! i) \<in> set (map codes SQL_KW))
       [0..<length ts]"

text \<open>
  \<open>replace_sql_token\<close>. The keyword branch (lines 54 to 57) needs the tokenizer and the
  table only. Every other token reaches line 59, whose condition calls \<^verbatim>\<open>re.fullmatch\<close>:
  the module imports \<^verbatim>\<open>random\<close>, \<^verbatim>\<open>typing\<close> and \<^verbatim>\<open>fuzzingbook.Fuzzer\<close> and never \<^verbatim>\<open>re\<close>, so
  evaluating the name raises NameError. The branches behind that condition (integer
  boundary values, string literals, identifiers; lines 60 to 77) are never reached and
  have no part in the model.
\<close>

definition replace_sql_token :: "string list \<Rightarrow> string \<Rightarrow> string rand" where
  "replace_sql_token SQL_KW s =
     (let ts = tok s; idx = content_idx ts in
      if idx = [] then return_rand s
      else bind_rand (choice idx) (\<lambda>i.
        let t = ts ! i in
        if upper t \<in> set (map codes SQL_KW) then
          bind_rand (choice SQL_KW) (\<lambda>alt.
            return_rand (unt (ts[i := (if isupper t then alt else lower alt)])))
        else raise NameError))"

definition duplicate_sql_clause :: "string list \<Rightarrow> string \<Rightarrow> string rand" where
  "duplicate_sql_clause SQL_KW s =
     (let ts = tok s; idx = keyword_idx SQL_KW ts in
      if idx = [] then return_rand s
      else bind_rand (choice idx) (\<lambda>i.
        let t = ts ! i in
        bind_rand (randint 0 (int (length ts))) (\<lambda>insert_pos.
          return_rand (unt (take (nat insert_pos) ts @ [t @ '' ''] @ drop (nat insert_pos) ts)))))"

text \<open>
  \<^verbatim>\<open>random.shuffle(x)\<close>, as the standard library has it: for \<open>i\<close> from the last index down
  to 1, exchange \<open>x[i]\<close> with \<open>x[j]\<close> for a drawn \<open>j \<le> i\<close>.
\<close>

fun shuffle_loop :: "nat \<Rightarrow> 'a list \<Rightarrow> 'a list rand" where
  "shuffle_loop 0 x g = Inr (x, g)"
| "shuffle_loop (Suc i) x g =
     (let j = shd g mod (Suc i + 1)
      in shuffle_loop i (x[Suc i := x ! j, j := x ! Suc i]) (stl g))"

definition shuffle :: "'a list \<Rightarrow> 'a list rand" where
  "shuffle x = shuffle_loop (length x - 1) x"

definition shuffle_sql_tokens :: "string \<Rightarrow> string rand" where
  "shuffle_sql_tokens s =
     (let ts = tok s; idx = content_idx ts in
      if length idx < 2 then return_rand s
      else bind_rand (randint 0 (int (length idx) - 2)) (\<lambda>start.
           bind_rand (randint (start + 1) (int (length idx) - 1)) (\<lambda>end.
             let segment_idx = take (nat (end + 1) - nat start) (drop (nat start) idx);
                 segment = map (\<lambda>i. ts ! i) segment_idx
             in bind_rand (shuffle segment) (\<lambda>segment'.
                  return_rand
                    (unt (fold (\<lambda>(j, k) ts'. ts'[k := segment' ! j])
                            (enumerate 0 segment_idx) ts))))))"

section \<open>The engine\<close>

text \<open>
  Python lists are objects: \<^verbatim>\<open>self.population = self.seed\<close> stores a reference, not a
  copy. The store maps the address of a list to its contents; the fields \<open>seed\<close> and
  \<open>population\<close> of the engine hold addresses.
\<close>

type_synonym addr = nat

type_synonym store = "addr \<Rightarrow> string list"

record fuzzer =
  seed :: addr
  min_mutations :: int
  max_mutations :: int
  population :: addr
  seed_index :: nat
  inp :: "string option"

definition reset :: "fuzzer \<Rightarrow> fuzzer" where
  "reset self = self\<lparr>population := seed self, seed_index := 0\<rparr>"

text \<open>
  \<^verbatim>\<open>MyMutationFuzzer(seed, min_mutations, max_mutations)\<close>: the constructor call, with the
  address of the caller's list. It reads nothing of the store and has no raise.
\<close>

definition init :: "addr \<Rightarrow> int \<Rightarrow> int \<Rightarrow> error + fuzzer" where
  "init seed_ref mn mx =
     Inr (reset \<lparr>seed = seed_ref, min_mutations = mn, max_mutations = mx,
                 population = seed_ref, seed_index = 0, inp = None\<rparr>)"


definition mutators :: "(string \<Rightarrow> string rand) list" where
  "mutators = [delete_random_character, insert_random_character, flip_random_character]"

definition mutate :: "string \<Rightarrow> string rand" where
  "mutate inp_str = bind_rand (choice mutators) (\<lambda>mutator. mutator inp_str)"

text \<open>\<^verbatim>\<open>for i in range(trials): candidate = self.mutate(candidate)\<close>\<close>

fun mutate_loop :: "nat \<Rightarrow> string \<Rightarrow> string rand" where
  "mutate_loop 0 candidate = return_rand candidate"
| "mutate_loop (Suc n) candidate =
     bind_rand (mutate candidate) (\<lambda>candidate'. mutate_loop n candidate')"

definition create_candidate :: "fuzzer \<Rightarrow> store \<Rightarrow> string rand" where
  "create_candidate self h =
     bind_rand (choice (h (population self))) (\<lambda>candidate.
     bind_rand (randint (min_mutations self) (max_mutations self)) (\<lambda>trials.
       mutate_loop (nat trials) candidate))"

text \<open>
  \<^verbatim>\<open>self.population.append(seed)\<close>: the list at that address grows in place. The
  message the method prints is not modelled.
\<close>

definition add_seed :: "fuzzer \<Rightarrow> string \<Rightarrow> store \<Rightarrow> store" where
  "add_seed self c h = h (population self := h (population self) @ [c])"

definition fuzz :: "fuzzer \<Rightarrow> store \<Rightarrow> rng \<Rightarrow> error + (string \<times> fuzzer \<times> rng)" where
  "fuzz self h g =
     (if seed_index self < length (h (seed self)) then
        (let x = h (seed self) ! seed_index self
         in Inr (x, self\<lparr>inp := Some x, seed_index := seed_index self + 1\<rparr>, g))
      else
        (case create_candidate self h g of
           Inl e \<Rightarrow> Inl e
         | Inr (x, g') \<Rightarrow> Inr (x, self\<lparr>inp := Some x\<rparr>, g')))"

section \<open>The spec's vocabulary\<close>

text \<open>
  The spec describes a candidate as a population member to which a number of generic
  mutation operators has been applied in sequence. An operator with its draws resolved
  is an \<open>op\<close>: the position, and the inserted character or the flipped bit. \<open>apply_op\<close>
  is what the spec says the operator does, \<open>valid_op\<close> the ranges the spec gives for
  the draws.
\<close>

datatype op = Delete nat | Insert nat char | Flip nat nat

fun apply_op :: "op \<Rightarrow> string \<Rightarrow> string" where
  "apply_op (Delete pos) s = take pos s @ drop (pos + 1) s"
| "apply_op (Insert pos c) s = take pos s @ [c] @ drop pos s"
| "apply_op (Flip pos k) s =
     (if s = [] then s
      else take pos s @ [char_of (nat (ord (s ! pos) XOR push_bit k 1))] @ drop (pos + 1) s)"

fun valid_op :: "op \<Rightarrow> string \<Rightarrow> bool" where
  "valid_op (Delete pos) s = (s = [] \<or> pos < length s)"
| "valid_op (Insert pos c) s =
     (pos \<le> length s \<and> 32 \<le> (of_char c :: nat) \<and> (of_char c :: nat) \<le> 126)"
| "valid_op (Flip pos k) s = ((s = [] \<or> pos < length s) \<and> k \<le> 6)"


text \<open>
  Modelled from the spec: the keyword table \<^verbatim>\<open>_SQL_KW\<close> is missing from the module; these
  are the keywords the spec names as its examples. The theorems hold for every table; this
  one serves the concrete runs.
\<close>

definition spec_keywords :: "string list" where
  "spec_keywords =
     [''SELECT'', ''WHERE'', ''JOIN'', ''UNION'', ''DROP'', ''ORDER'', ''GROUP'', ''AND'', ''OR'']"

text \<open>
  Occurrences of a keyword in a string, case-insensitively: as a token of the string, and
  as a substring of it.
\<close>

definition token_occurrences :: "string \<Rightarrow> string \<Rightarrow> nat" where
  "token_occurrences k s = length (filter (\<lambda>t. upper t = codes k) (tok s))"

fun occurrences :: "nat list \<Rightarrow> nat list \<Rightarrow> nat" where
  "occurrences k [] = 0"
| "occurrences k (c # cs) =
     (if take (length k) (c # cs) = k then 1 else 0) + occurrences k cs"

definition substring_occurrences :: "string \<Rightarrow> string \<Rightarrow> nat" where
  "substring_occurrences k s = occurrences (codes k) (upper s)"

text \<open>Scenario A of the spec: the seed list \<^verbatim>\<open>["SELECT 1"]\<close> at address 0, default bounds.\<close>

definition scenario_store :: store where
  "scenario_store = (\<lambda>_. [])(0 := [''SELECT 1''])"

definition scenario_fuzzer :: "nat \<Rightarrow> string option \<Rightarrow> fuzzer" where
  "scenario_fuzzer k x =
     \<lparr>seed = 0, min_mutations = 2, max_mutations = 10, population = 0,
      seed_index = k, inp = x\<rparr>"

text \<open>Scenario B of the spec: the tokens of \<^verbatim>\<open>SELECT * FROM t\<close>.\<close>

definition select_tokens :: "string list" where
  "select_tokens = [''SELECT'', '' '', ''*'', '' '', ''FROM'', '' '', ''t'']"

section \<open>Facts about the random source\<close>

lemmas char_defs = is_space_def quote_def word_char_def isspace_def upper_def lower_def
  upper_char_def lower_char_def is_upper_char_def is_lower_char_def isupper_def islower_def
  codes_def Let_def

lemma randint_ok:
  "a \<le> b \<Longrightarrow> \<exists>n. randint a b g = Inr (n, stl g) \<and> a \<le> n \<and> n \<le> b"
proof -
  assume ab: "a \<le> b"
  have "shd g mod nat (b - a + 1) < nat (b - a + 1)"
    using ab by (intro mod_less_divisor) simp
  then have "int (shd g mod nat (b - a + 1)) \<le> b - a" using ab by linarith
  then show ?thesis using ab by (simp add: randint_def)
qed

lemma randrange_ok:
  "a < b \<Longrightarrow> \<exists>n. randrange a b g = Inr (n, stl g) \<and> a \<le> n \<and> n < b"
proof -
  assume ab: "a < b"
  have "shd g mod nat (b - a) < nat (b - a)"
    using ab by (intro mod_less_divisor) simp
  then have "int (shd g mod nat (b - a)) < b - a" using ab by linarith
  then show ?thesis using ab by (simp add: randrange_def)
qed

lemma choice_ok:
  "xs \<noteq> [] \<Longrightarrow> \<exists>i < length xs. choice xs g = Inr (xs ! i, stl g)"
  by (auto simp: choice_def intro!: exI [of _ "shd g mod length xs"])

section \<open>The engine: construction, seeding and the shared list\<close>

text \<open>
  C3, as amended. Construction validates nothing and never fails: for every seed list,
  also the empty one, and every pair of bounds, also \<open>max_mutations < min_mutations\<close>, it
  yields an engine with the cursor at 0 whose population is the seed list itself.
\<close>

theorem init_never_fails:
  "init a mn mx =
     Inr \<lparr>seed = a, min_mutations = mn, max_mutations = mx, population = a,
          seed_index = 0, inp = None\<rparr>"
  by (simp add: init_def reset_def)

text \<open>
  C3 as stated fails: with bounds 20 and 10 on an empty seed list the constructor returns
  an engine.
\<close>

theorem init_invalid_counterexample:
  "(10::int) < 20 \<and> (\<lambda>_. []) (0::addr) = ([] :: string list) \<and>
   init 0 20 10 =
     Inr \<lparr>seed = 0, min_mutations = 20, max_mutations = 10, population = 0,
          seed_index = 0, inp = None\<rparr>"
  by (simp add: init_def reset_def)

text \<open>
  C1 at a concrete engine. The engine built on the seed list \<^verbatim>\<open>["SELECT 1"]\<close> holds one
  list under two names, so \<open>add_seed\<close> of \<^verbatim>\<open>"foo"\<close> lengthens the seed list as well: the
  seed list is not left unchanged.
\<close>

theorem add_seed_aliases_seed_list:
  "init 0 2 10 = Inr (scenario_fuzzer 0 None) \<and>
   scenario_store (seed (scenario_fuzzer 0 None)) = [''SELECT 1''] \<and>
   add_seed (scenario_fuzzer 0 None) ''foo'' scenario_store (seed (scenario_fuzzer 0 None))
     = [''SELECT 1'', ''foo'']"
  by (simp add: init_def reset_def scenario_fuzzer_def scenario_store_def add_seed_def)

text \<open>
  C2 at a concrete run. After the only seed has been dispensed the cursor equals the
  seed-list length; \<open>add_seed\<close> then lengthens the seed list, and the next \<open>fuzz\<close> is back
  in the seeding branch: it returns the added string by cursor, unmutated and without a
  draw.
\<close>

theorem fuzz_reenters_seeding:
  "fuzz (scenario_fuzzer 0 None) scenario_store (sconst 0)
     = Inr (''SELECT 1'', scenario_fuzzer 1 (Some ''SELECT 1''), sconst 0) \<and>
   seed_index (scenario_fuzzer 1 (Some ''SELECT 1''))
     = length (scenario_store (seed (scenario_fuzzer 1 (Some ''SELECT 1'')))) \<and>
   fuzz (scenario_fuzzer 1 (Some ''SELECT 1''))
        (add_seed (scenario_fuzzer 1 (Some ''SELECT 1'')) ''foo'' scenario_store) (sconst 0)
     = Inr (''foo'', scenario_fuzzer 2 (Some ''foo''), sconst 0)"
  by (simp add: fuzz_def Let_def scenario_fuzzer_def scenario_store_def add_seed_def)

text \<open>
  C6. While the cursor is below the seed-list length, \<open>fuzz\<close> returns the seed at the
  cursor and advances the cursor by one, drawing nothing; once the cursor has reached the
  length it returns what \<open>create_candidate\<close> returns. With the seed list \<^verbatim>\<open>["SELECT 1"]\<close>
  and cursor 0 it returns \<^verbatim>\<open>"SELECT 1"\<close> and the cursor becomes 1.
\<close>

theorem fuzz_spec:
  "(seed_index self < length (h (seed self)) \<longrightarrow>
      fuzz self h g =
        Inr (h (seed self) ! seed_index self,
             self\<lparr>inp := Some (h (seed self) ! seed_index self),
                  seed_index := seed_index self + 1\<rparr>, g)) \<and>
   (length (h (seed self)) \<le> seed_index self \<longrightarrow>
      fuzz self h g =
        (case create_candidate self h g of
           Inl e \<Rightarrow> Inl e
         | Inr (x, g') \<Rightarrow> Inr (x, self\<lparr>inp := Some x\<rparr>, g'))) \<and>
   fuzz (scenario_fuzzer 0 None) scenario_store g
     = Inr (''SELECT 1'', scenario_fuzzer 1 (Some ''SELECT 1''), g)"
  by (simp add: fuzz_def Let_def scenario_fuzzer_def scenario_store_def)

text \<open>The witness runs Scenario A through both branches.\<close>

lemma scenario_candidate:
  "create_candidate (scenario_fuzzer 1 None) scenario_store (sconst 0) = Inr (''LECT 1'', sconst 0)"
  by (simp add: create_candidate_def scenario_fuzzer_def scenario_store_def bind_rand_def
        return_rand_def choice_def randint_def mutate_def mutators_def
        delete_random_character_def numeral_2_eq_2)

theorem fuzz_spec_witness:
  "seed_index (scenario_fuzzer 0 None) < length (scenario_store (seed (scenario_fuzzer 0 None))) \<and>
   fuzz (scenario_fuzzer 0 None) scenario_store (sconst 0)
     = Inr (''SELECT 1'', scenario_fuzzer 1 (Some ''SELECT 1''), sconst 0) \<and>
   length (scenario_store (seed (scenario_fuzzer 1 None))) \<le> seed_index (scenario_fuzzer 1 None) \<and>
   fuzz (scenario_fuzzer 1 None) scenario_store (sconst 0)
     = Inr (''LECT 1'', scenario_fuzzer 1 (Some ''LECT 1''), sconst 0)"
proof -
  have a: "seed_index (scenario_fuzzer 0 None)
             < length (scenario_store (seed (scenario_fuzzer 0 None)))"
    by (simp add: scenario_fuzzer_def scenario_store_def)
  have b: "length (scenario_store (seed (scenario_fuzzer 1 None)))
             \<le> seed_index (scenario_fuzzer 1 None)"
    by (simp add: scenario_fuzzer_def scenario_store_def)
  from fuzz_spec [of "scenario_fuzzer 0 None" scenario_store "sconst 0"]
  have c: "fuzz (scenario_fuzzer 0 None) scenario_store (sconst 0)
     = Inr (''SELECT 1'', scenario_fuzzer 1 (Some ''SELECT 1''), sconst 0)"
    by blast
  from fuzz_spec [of "scenario_fuzzer 1 None" scenario_store "sconst 0"] b
  have "fuzz (scenario_fuzzer 1 None) scenario_store (sconst 0) =
        (case create_candidate (scenario_fuzzer 1 None) scenario_store (sconst 0) of
           Inl e \<Rightarrow> Inl e
         | Inr (x, g') \<Rightarrow> Inr (x, (scenario_fuzzer 1 None)\<lparr>inp := Some x\<rparr>, g'))"
    by blast
  then have d: "fuzz (scenario_fuzzer 1 None) scenario_store (sconst 0)
     = Inr (''LECT 1'', scenario_fuzzer 1 (Some ''LECT 1''), sconst 0)"
    unfolding scenario_candidate by (simp add: scenario_fuzzer_def)
  from a b c d show ?thesis by blast
qed

text \<open>
  C10. On an empty seed list construction succeeds, the cursor 0 already equals the
  seed-list length, and the first \<open>fuzz\<close> fails with the IndexError of the draw from the
  empty population in \<open>create_candidate\<close>.
\<close>

theorem empty_seed_list_raises_late:
  assumes "h a = []"
  shows "\<exists>self. init a mn mx = Inr self \<and> seed_index self = 0 \<and>
           length (h (seed self)) = 0 \<and>
           create_candidate self h g = Inl IndexError \<and>
           fuzz self h g = Inl IndexError"
  using assms
  by (simp add: init_def reset_def fuzz_def create_candidate_def bind_rand_def choice_def)

theorem empty_seed_list_raises_late_witness:
  "(\<lambda>_. []) (0::addr) = ([] :: string list) \<and>
   (\<exists>self. init 0 2 10 = Inr self \<and> seed_index self = 0 \<and>
      length ((\<lambda>_. []) (seed self) :: string list) = 0 \<and>
      create_candidate self (\<lambda>_. []) (sconst 0) = Inl IndexError \<and>
      fuzz self (\<lambda>_. []) (sconst 0) = Inl IndexError)"
  using empty_seed_list_raises_late [of "\<lambda>_. []" 0 2 10 "sconst 0"] by simp

section \<open>Generic mutators never fail\<close>

lemma flip_code_in_range:
  assumes "0 \<le> k" "k \<le> 6"
  shows "0 \<le> ord c XOR push_bit (nat k) 1 \<and> ord c XOR push_bit (nat k) 1 < 256"
proof -
  have c: "0 \<le> ord c" "ord c < 2 ^ 8" by (simp_all add: ord_def)
  have "(2::int) ^ nat k \<le> 2 ^ 6" using assms by (intro power_increasing) auto
  then have b: "push_bit (nat k) (1::int) < 2 ^ 8" by (simp add: push_bit_eq_mult)
  have "ord c XOR push_bit (nat k) 1 < 2 ^ 8" using c b by (intro XOR_upper) auto
  moreover have "0 \<le> ord c XOR push_bit (nat k) 1" using c by simp
  ultimately show ?thesis by simp
qed

lemma insert_code_in_range:
  assumes "randrange 32 127 g = Inr (m, g')"
  shows "32 \<le> m \<and> m < 127 \<and> chr m = Inr (nat m) \<and> nat m < 256"
proof -
  from randrange_ok [of 32 127 g] assms have "32 \<le> m \<and> m < 127" by auto
  then show ?thesis by (auto simp: chr_def)
qed

lemma delete_total:
  "\<exists>x g'. valid_op x s \<and> delete_random_character s g = Inr (apply_op x s, g')"
proof (cases "s = []")
  case True
  then show ?thesis
    by (intro exI [of _ "Delete 0"] exI [of _ g])
       (simp add: delete_random_character_def return_rand_def)
next
  case False
  then have "(0::int) \<le> int (length s) - 1" by (cases s) auto
  from randint_ok [OF this, of g] obtain n where
    n: "randint 0 (int (length s) - 1) g = Inr (n, stl g)" "0 \<le> n" "n \<le> int (length s) - 1"
    by blast
  have v: "valid_op (Delete (nat n)) s" using n False by auto
  have "delete_random_character s g = Inr (apply_op (Delete (nat n)) s, stl g)"
    using n False by (simp add: delete_random_character_def return_rand_def bind_rand_def)
  with v show ?thesis by blast
qed

lemma insert_total:
  "\<exists>x g'. valid_op x s \<and> insert_random_character s g = Inr (apply_op x s, g')"
proof -
  from randint_ok [of 0 "int (length s)" g] obtain n where
    n: "randint 0 (int (length s)) g = Inr (n, stl g)" "0 \<le> n" "n \<le> int (length s)" by auto
  from randrange_ok [of 32 127 "stl g"] obtain m where
    m: "randrange 32 127 (stl g) = Inr (m, stl (stl g))" "32 \<le> m" "m < 127" by auto
  have "valid_op (Insert (nat n) (char_of (nat m))) s" using n m by (simp, linarith)
  moreover have "insert_random_character s g =
      Inr (apply_op (Insert (nat n) (char_of (nat m))) s, stl (stl g))"
    using n m by (simp add: insert_random_character_def bind_rand_def chr_def)
  ultimately show ?thesis by blast
qed

lemma flip_total:
  "\<exists>x g'. valid_op x s \<and> flip_random_character s g = Inr (apply_op x s, g')"
proof (cases "s = []")
  case True
  then show ?thesis
    by (intro exI [of _ "Flip 0 0"] exI [of _ g])
       (simp add: flip_random_character_def return_rand_def)
next
  case False
  then have "(0::int) \<le> int (length s) - 1" by (cases s) auto
  from randint_ok [OF this, of g] obtain n where
    n: "randint 0 (int (length s) - 1) g = Inr (n, stl g)" "0 \<le> n" "n \<le> int (length s) - 1"
    by blast
  from randint_ok [of 0 6 "stl g"] obtain k where
    k: "randint 0 6 (stl g) = Inr (k, stl (stl g))" "0 \<le> k" "k \<le> 6" by auto
  have v: "valid_op (Flip (nat n) (nat k)) s" using n k False by (simp, linarith)
  have "flip_random_character s g = Inr (apply_op (Flip (nat n) (nat k)) s, stl (stl g))"
    using n k False flip_code_in_range [OF k(2,3), of "s ! nat n"]
    by (simp add: flip_random_character_def bind_rand_def chr_def Let_def)
  with v show ?thesis by blast
qed






section \<open>Tokenizer round trip and the SQL-aware mutators\<close>

lemma tok_roundtrip: "concat (tok s) = s"
proof (induction s rule: tok.induct)
  case 1
  show ?case by simp
next
  case (2 c cs)
  show ?case
  proof (cases "is_space c")
    case True
    with 2 show ?thesis by simp
  next
    case False
    show ?thesis
    proof (cases "c = quote \<and> quote \<in> set cs")
      case True
      then have ne: "dropWhile (\<lambda>x. x \<noteq> quote) cs \<noteq> []" by simp
      then have "hd (dropWhile (\<lambda>x. x \<noteq> quote) cs) = quote"
        using hd_dropWhile [of "\<lambda>x. x \<noteq> quote" cs] by simp
      with ne have "dropWhile (\<lambda>x. x \<noteq> quote) cs = quote # tl (dropWhile (\<lambda>x. x \<noteq> quote) cs)"
        by (cases "dropWhile (\<lambda>x. x \<noteq> quote) cs") auto
      then have "takeWhile (\<lambda>x. x \<noteq> quote) cs @ quote # tl (dropWhile (\<lambda>x. x \<noteq> quote) cs) = cs"
        using takeWhile_dropWhile_id [of "\<lambda>x. x \<noteq> quote" cs] by simp
      with 2(2) False True show ?thesis by simp
    next
      case unquoted: False
      with 2(3) False show ?thesis by auto
    qed
  qed
qed

text \<open>
  C5. Reassembling the tokens of a string gives the string back; reassembly is the plain
  concatenation of the token texts; the empty string has no tokens, and no tokens
  reassemble to the empty string.
\<close>

theorem untokenize_tokenize:
  "unt (tok s) = s \<and> unt ts = concat ts \<and> tok [] = [] \<and> unt [] = []"
  by (simp add: unt_def tok_roundtrip)

lemma duplicate_total: "\<exists>y g'. duplicate_sql_clause kw s g = Inr (y, g')"
  by (auto simp: duplicate_sql_clause_def Let_def bind_rand_def return_rand_def choice_def
        randint_def)

lemma shuffle_loop_total: "\<exists>y g'. shuffle_loop i x g = Inr (y, g')"
  by (induction i arbitrary: x g) (auto simp: Let_def)

lemma shuffle_total: "\<exists>y g'. shuffle_sql_tokens s g = Inr (y, g')"
proof (cases "length (content_idx (tok s)) < 2")
  case True
  then show ?thesis by (simp add: shuffle_sql_tokens_def Let_def return_rand_def)
next
  case False
  define n where "n = int (length (content_idx (tok s)))"
  have n2: "0 \<le> n - 2" using False by (simp add: n_def)
  from randint_ok [OF n2, of g] obtain start where
    st: "randint 0 (n - 2) g = Inr (start, stl g)" "0 \<le> start" "start \<le> n - 2" by blast
  then have "start + 1 \<le> n - 1" by simp
  from randint_ok [OF this, of "stl g"] obtain en where
    en: "randint (start + 1) (n - 1) (stl g) = Inr (en, stl (stl g))" by blast
  define segment_idx where
    "segment_idx = take (nat (en + 1) - nat start) (drop (nat start) (content_idx (tok s)))"
  from shuffle_loop_total
  obtain seg g' where
    sh: "shuffle (map (\<lambda>i. tok s ! i) segment_idx) (stl (stl g)) = Inr (seg, g')"
    unfolding shuffle_def by blast
  show ?thesis using False st(1) en sh
    by (simp add: shuffle_sql_tokens_def Let_def bind_rand_def return_rand_def n_def
          segment_idx_def)
qed

lemma other_operators_total:
  "(\<exists>y g'. delete_random_character s g = Inr (y, g')) \<and>
   (\<exists>y g'. insert_random_character s g = Inr (y, g')) \<and>
   (\<exists>y g'. flip_random_character s g = Inr (y, g')) \<and>
   (\<exists>y g'. duplicate_sql_clause kw s g = Inr (y, g')) \<and>
   (\<exists>y g'. shuffle_sql_tokens s g = Inr (y, g')) \<and>
   delete_random_character [] g = Inr ([], g) \<and>
   flip_random_character [] g = Inr ([], g)"
proof -
  have d: "\<exists>y g'. delete_random_character s g = Inr (y, g')"
    using delete_total [of s g] by blast
  have i: "\<exists>y g'. insert_random_character s g = Inr (y, g')"
    using insert_total [of s g] by blast
  have f: "\<exists>y g'. flip_random_character s g = Inr (y, g')"
    using flip_total [of s g] by blast
  have e1: "delete_random_character [] g = Inr ([], g)"
    by (simp add: delete_random_character_def return_rand_def)
  have e2: "flip_random_character [] g = Inr ([], g)"
    by (simp add: flip_random_character_def return_rand_def)
  from d i f e1 e2 duplicate_total [of kw s g] shuffle_total [of s g]
  show ?thesis by blast
qed

lemma replace_sql_token_other_token:
  assumes "content_idx (tok s) \<noteq> []"
    and "upper (tok s ! (content_idx (tok s) ! (shd g mod length (content_idx (tok s)))))
           \<notin> set (map codes kw)"
  shows "replace_sql_token kw s g = Inl NameError"
  using assms
  by (simp add: replace_sql_token_def Let_def bind_rand_def choice_def raise_def)

lemma tok_x_100: "tok ''x = 100'' = [''x'', '' '', ''='', '' '', ''100'']"
  by (simp add: is_space_def quote_def word_char_def)

text \<open>
  C4 at a concrete input. On \<^verbatim>\<open>x = 100\<close> none of the three content tokens is a keyword,
  so whichever of them the draw picks, \<open>replace_sql_token\<close> reaches the call of
  \<^verbatim>\<open>re.fullmatch\<close> and fails with NameError: the operator raises where the claim has it
  return a string.
\<close>

theorem replace_sql_token_name_error:
  "content_idx (tok ''x = 100'') = [0, 2, 4] \<and>
   replace_sql_token spec_keywords ''x = 100'' (0 ## sconst 0) = Inl NameError \<and>
   replace_sql_token spec_keywords ''x = 100'' (1 ## sconst 0) = Inl NameError \<and>
   replace_sql_token spec_keywords ''x = 100'' (2 ## sconst 0) = Inl NameError"
  unfolding replace_sql_token_def tok_x_100
  by (simp add: content_idx_def spec_keywords_def char_defs bind_rand_def choice_def raise_def)

section \<open>Keyword swap\<close>

lemma lower_char_code:
  "is_upper_char c \<Longrightarrow> (of_char (lower_char c) :: nat) = of_char c + 32"
  by (auto simp: lower_char_def is_upper_char_def Let_def)

lemma lower_char_not_upper: "\<not> is_upper_char (lower_char c)"
proof (cases "is_upper_char c")
  case True
  from lower_char_code [OF True] True show ?thesis
    by (auto simp: is_upper_char_def Let_def)
next
  case False
  then show ?thesis by (simp add: lower_char_def)
qed

lemma lower_char_is_lower: "is_upper_char c \<Longrightarrow> is_lower_char (lower_char c)"
proof -
  assume u: "is_upper_char c"
  from lower_char_code [OF u] u show ?thesis
    by (auto simp: is_upper_char_def is_lower_char_def Let_def)
qed

lemma islower_lower: "isupper a \<Longrightarrow> islower (lower a)"
  by (auto simp: isupper_def islower_def lower_def list_ex_iff lower_char_not_upper
        intro: lower_char_is_lower)

text \<open>
  C8, as amended. When the content token drawn by \<open>replace_sql_token\<close> is a keyword
  case-insensitively, the token is replaced by a keyword drawn from the whole table, which
  may be the same keyword. With a table of all-uppercase entries the case style is kept: an
  all-uppercase token gets the keyword as the table has it, any other token gets the
  keyword in lowercase.
\<close>

theorem keyword_swap:
  assumes "content_idx (tok s) \<noteq> []"
    and "i = content_idx (tok s) ! (shd g mod length (content_idx (tok s)))"
    and "upper (tok s ! i) \<in> set (map codes kw)"
    and "list_all isupper kw"
  shows "\<exists>alt new. alt = kw ! (shd (stl g) mod length kw) \<and> alt \<in> set kw \<and>
           replace_sql_token kw s g = Inr (unt ((tok s)[i := new]), stl (stl g)) \<and>
           (isupper (tok s ! i) \<longrightarrow> new = alt \<and> isupper new) \<and>
           (\<not> isupper (tok s ! i) \<longrightarrow> new = lower alt \<and> islower new)"
proof -
  have ne: "kw \<noteq> []" using assms(3) by auto
  define alt where "alt = kw ! (shd (stl g) mod length kw)"
  define new where "new = (if isupper (tok s ! i) then alt else lower alt)"
  have mem: "alt \<in> set kw" using ne by (simp add: alt_def)
  then have up: "isupper alt" using assms(4) by (simp add: list_all_iff)
  have run: "replace_sql_token kw s g = Inr (unt ((tok s)[i := new]), stl (stl g))"
    using assms(1,3) ne unfolding assms(2) alt_def new_def
    by (simp add: replace_sql_token_def Let_def bind_rand_def return_rand_def choice_def)
  have c1: "isupper (tok s ! i) \<longrightarrow> new = alt \<and> isupper new"
    using up by (simp add: new_def)
  have c2: "\<not> isupper (tok s ! i) \<longrightarrow> new = lower alt \<and> islower new"
    using up by (simp add: new_def islower_lower)
  from alt_def mem run c1 c2 show ?thesis by blast
qed

text \<open>
  C8 as stated fails: on the one-token string \<^verbatim>\<open>SELECT\<close> the draw 0 picks \<^verbatim>\<open>SELECT\<close> from
  the table again, so the replacement is not a different keyword.
\<close>

theorem keyword_swap_same_counterexample:
  "upper ''SELECT'' \<in> set (map codes spec_keywords) \<and> isupper ''SELECT'' \<and>
   replace_sql_token spec_keywords ''SELECT'' (sconst 0) = Inr (''SELECT'', sconst 0)"
  by (simp add: replace_sql_token_def spec_keywords_def content_idx_def char_defs
        bind_rand_def return_rand_def choice_def unt_def Let_def)

lemma tok_select_lower: "tok ''select 1'' = [''select'', '' '', ''1'']"
  by (simp add: is_space_def quote_def word_char_def)

lemma spec_keywords_upper: "list_all isupper spec_keywords"
  by (simp add: spec_keywords_def isupper_def is_upper_char_def is_lower_char_def)

theorem keyword_swap_witness:
  "content_idx (tok ''select 1'') \<noteq> [] \<and>
   0 = content_idx (tok ''select 1'') ! (shd (0 ## 1 ## sconst 0) mod length (content_idx (tok ''select 1''))) \<and>
   upper (tok ''select 1'' ! 0) \<in> set (map codes spec_keywords) \<and>
   list_all isupper spec_keywords \<and>
   replace_sql_token spec_keywords ''select 1'' (0 ## 1 ## sconst 0) = Inr (''where 1'', sconst 0)"
proof -
  have idx: "content_idx (tok ''select 1'') = [0, 2]"
    unfolding tok_select_lower by (simp add: content_idx_def isspace_def is_space_def)
  have a: "content_idx (tok ''select 1'') \<noteq> []" using idx by simp
  have b: "0 = content_idx (tok ''select 1'')
             ! (shd (0 ## 1 ## sconst 0) mod length (content_idx (tok ''select 1'')))"
    using idx by simp
  have c: "upper (tok ''select 1'' ! 0) \<in> set (map codes spec_keywords)"
    unfolding tok_select_lower
    by (simp add: spec_keywords_def upper_def upper_char_def codes_def Let_def)
  have low: "\<not> isupper (tok ''select 1'' ! 0)"
    unfolding tok_select_lower by (simp add: isupper_def is_upper_char_def is_lower_char_def)
  from keyword_swap [OF a b c spec_keywords_upper] low
  have "replace_sql_token spec_keywords ''select 1'' (0 ## 1 ## sconst 0) =
          Inr (unt ((tok ''select 1'')[0 := lower (spec_keywords ! (shd (stl (0 ## 1 ## sconst 0)) mod length spec_keywords))]),
               stl (stl (0 ## 1 ## sconst 0)))"
    by auto
  then have d: "replace_sql_token spec_keywords ''select 1'' (0 ## 1 ## sconst 0)
                  = Inr (''where 1'', sconst 0)"
    unfolding tok_select_lower
    by (simp add: spec_keywords_def unt_def lower_def lower_char_def is_upper_char_def
          char_of_eq_iff)
  from a b c d spec_keywords_upper show ?thesis by blast
qed

section \<open>Clause duplication on Scenario B\<close>

lemma tok_select: "tok ''SELECT * FROM t'' = select_tokens"
  by (simp add: select_tokens_def is_space_def quote_def word_char_def)

lemma select_dup_counts:
  assumes "p \<le> length select_tokens"
  shows "substring_occurrences ''SELECT''
           (unt (take p select_tokens @ [select_tokens ! 0 @ '' ''] @ drop p select_tokens)) = 2 \<and>
         (token_occurrences ''SELECT''
           (unt (take p select_tokens @ [select_tokens ! 0 @ '' ''] @ drop p select_tokens)) = 2
          \<longleftrightarrow> even p)"
proof -
  from assms have "p \<le> 7" by (simp add: select_tokens_def)
  then consider "p = 0" | "p = 1" | "p = 2" | "p = 3" | "p = 4" | "p = 5" | "p = 6" | "p = 7"
    by linarith
  then show ?thesis
  proof cases
    case 1 then show ?thesis
      by (simp add: select_tokens_def unt_def token_occurrences_def substring_occurrences_def
            char_defs)
  next
    case 2 then show ?thesis
      by (simp add: select_tokens_def unt_def token_occurrences_def substring_occurrences_def
            char_defs)
  next
    case 3 then show ?thesis
      by (simp add: select_tokens_def unt_def token_occurrences_def substring_occurrences_def
            char_defs)
  next
    case 4 then show ?thesis
      by (simp add: select_tokens_def unt_def token_occurrences_def substring_occurrences_def
            char_defs)
  next
    case 5 then show ?thesis
      by (simp add: select_tokens_def unt_def token_occurrences_def substring_occurrences_def
            char_defs)
  next
    case 6 then show ?thesis
      by (simp add: select_tokens_def unt_def token_occurrences_def substring_occurrences_def
            char_defs)
  next
    case 7 then show ?thesis
      by (simp add: select_tokens_def unt_def token_occurrences_def substring_occurrences_def
            char_defs)
  next
    case 8 then show ?thesis
      by (simp add: select_tokens_def unt_def token_occurrences_def substring_occurrences_def
            char_defs)
  qed
qed

text \<open>
  C9, as amended. With \<^verbatim>\<open>SELECT\<close> in the keyword table, \<open>duplicate_sql_clause\<close> on
  \<^verbatim>\<open>SELECT * FROM t\<close> never fails and returns the seven token texts with a copy of one
  keyword token of the input, a blank appended, inserted at one of the positions 0 to 7.
  When the copy is of the token \<^verbatim>\<open>SELECT\<close>, the result contains \<^verbatim>\<open>SELECT\<close> twice as a
  substring, and it has two \<^verbatim>\<open>SELECT\<close> tokens exactly when the position is even, that
  is when the copy lands in front of a content token.
\<close>

theorem duplicate_select:
  assumes "''SELECT'' \<in> set kw"
  shows "\<exists>i p g'. i < length select_tokens \<and> \<not> isspace (select_tokens ! i) \<and>
           upper (select_tokens ! i) \<in> set (map codes kw) \<and> p \<le> length select_tokens \<and>
           duplicate_sql_clause kw ''SELECT * FROM t'' g =
             Inr (unt (take p select_tokens @ [select_tokens ! i @ '' ''] @ drop p select_tokens),
                  g') \<and>
           (i = 0 \<longrightarrow>
              substring_occurrences ''SELECT''
                (unt (take p select_tokens @ [select_tokens ! i @ '' ''] @ drop p select_tokens))
                = 2 \<and>
              (token_occurrences ''SELECT''
                (unt (take p select_tokens @ [select_tokens ! i @ '' ''] @ drop p select_tokens))
                = 2 \<longleftrightarrow> even p))"
proof -
  let ?idx = "keyword_idx kw select_tokens"
  have "upper (select_tokens ! 0) = codes ''SELECT''"
    by (simp add: select_tokens_def upper_def upper_char_def codes_def Let_def)
  moreover have "codes ''SELECT'' \<in> set (map codes kw)" using assms by auto
  moreover have "\<not> isspace (select_tokens ! 0)" "0 < length select_tokens"
    by (simp_all add: select_tokens_def isspace_def is_space_def)
  ultimately have "0 \<in> set ?idx"
    by (simp add: keyword_idx_def)
  then have ne: "?idx \<noteq> []" by auto
  from choice_ok [OF ne, of g] obtain k where
    k: "k < length ?idx" "choice ?idx g = Inr (?idx ! k, stl g)" by blast
  define i where "i = ?idx ! k"
  have "i \<in> set ?idx" using k(1) by (simp add: i_def)
  then have i: "i < length select_tokens" "\<not> isspace (select_tokens ! i)"
    "upper (select_tokens ! i) \<in> set (map codes kw)"
    by (simp_all add: keyword_idx_def)
  from randint_ok [of 0 "int (length select_tokens)" "stl g"] obtain n where
    n: "randint 0 (int (length select_tokens)) (stl g) = Inr (n, stl (stl g))"
       "0 \<le> n" "n \<le> int (length select_tokens)" by auto
  have p: "nat n \<le> length select_tokens" using n by linarith
  have run: "duplicate_sql_clause kw ''SELECT * FROM t'' g =
      Inr (unt (take (nat n) select_tokens @ [select_tokens ! i @ '' ''] @ drop (nat n) select_tokens),
           stl (stl g))"
    using ne k(2) n(1) unfolding duplicate_sql_clause_def tok_select
    by (simp add: Let_def bind_rand_def return_rand_def i_def)
  have cnt: "i = 0 \<longrightarrow>
      substring_occurrences ''SELECT''
        (unt (take (nat n) select_tokens @ [select_tokens ! i @ '' ''] @ drop (nat n) select_tokens))
        = 2 \<and>
      (token_occurrences ''SELECT''
        (unt (take (nat n) select_tokens @ [select_tokens ! i @ '' ''] @ drop (nat n) select_tokens))
        = 2 \<longleftrightarrow> even (nat n))"
  proof
    assume "i = 0"
    then show "substring_occurrences ''SELECT''
        (unt (take (nat n) select_tokens @ [select_tokens ! i @ '' ''] @ drop (nat n) select_tokens))
        = 2 \<and>
      (token_occurrences ''SELECT''
        (unt (take (nat n) select_tokens @ [select_tokens ! i @ '' ''] @ drop (nat n) select_tokens))
        = 2 \<longleftrightarrow> even (nat n))"
      using select_dup_counts [OF p] by simp
  qed
  show ?thesis using i p run cnt by blast
qed

text \<open>
  C9 as stated fails: when the copy of \<^verbatim>\<open>SELECT\<close> lands at position 1, directly behind the
  original, the result is \<^verbatim>\<open>SELECTSELECT  * FROM t\<close>, and none of its tokens is \<^verbatim>\<open>SELECT\<close>.
  The token list before reassembly has one \<^verbatim>\<open>SELECT\<close> only, the copy carrying its blank.
\<close>

theorem duplicate_select_counterexample:
  "duplicate_sql_clause spec_keywords ''SELECT * FROM t'' (0 ## 1 ## sconst 0)
     = Inr (''SELECTSELECT  * FROM t'', sconst 0) \<and>
   tok ''SELECTSELECT  * FROM t''
     = [''SELECTSELECT'', ''  '', ''*'', '' '', ''FROM'', '' '', ''t''] \<and>
   token_occurrences ''SELECT'' ''SELECTSELECT  * FROM t'' = 0 \<and>
   length (filter (\<lambda>t. upper t = codes ''SELECT'')
             (take 1 select_tokens @ [select_tokens ! 0 @ '' ''] @ drop 1 select_tokens)) = 1"
  by (simp add: duplicate_sql_clause_def keyword_idx_def spec_keywords_def token_occurrences_def
        select_tokens_def char_defs bind_rand_def return_rand_def choice_def randint_def
        unt_def Let_def)

theorem duplicate_select_witness:
  "''SELECT'' \<in> set spec_keywords \<and>
   (\<exists>i p g'. i < length select_tokens \<and>
      upper (select_tokens ! i) \<in> set (map codes spec_keywords) \<and>
      p \<le> length select_tokens \<and>
      duplicate_sql_clause spec_keywords ''SELECT * FROM t'' (0 ## 1 ## sconst 0) =
        Inr (unt (take p select_tokens @ [select_tokens ! i @ '' ''] @ drop p select_tokens), g'))"
proof -
  have a: "''SELECT'' \<in> set spec_keywords" by (simp add: spec_keywords_def)
  from duplicate_select [OF a, of "0 ## 1 ## sconst 0"] a show ?thesis by blast
qed

end
